theory Spec2Isabelle
  imports Complex_Main "HOL-Library.Char_ord" "HOL-Library.List_Lexorder"
    "HOL-Library.Product_Lexorder" "HOL-Library.Multiset"
begin

section \<open>Clinic dashboard: the aggregation pipeline of the Streamlit script\<close>

text \<open>
  The script \<^verbatim>\<open>streamlit_clinic_dashboard_normal_v14.py\<close> loads a CSV of billing rows into a
  pandas frame and renders seven sections from it. The embedding below follows the script from
  top to bottom. Conventions:
  \<^item> a calendar date is a triple (year, month, day), ordered lexicographically, which is
    chronological order;
  \<^item> strings are compared as Python compares them, character by character by code point;
  \<^item> \<^verbatim>\<open>Units\<close> and the synthetic counts are integers; money columns are exact rationals
    (pandas holds them as binary floating point, whose representation error is not modelled);
  \<^item> a missing \<^verbatim>\<open>Provider\<close> cell (pandas NaN) is \<open>None\<close>; every row has a date (an empty
    \<^verbatim>\<open>Date\<close> cell is not modelled);
  \<^item> every \<^verbatim>\<open>st.stop()\<close> and every exception is an \<open>Inl\<close> result;
  \<^item> the values returned by \<^verbatim>\<open>np.random\<close> and the index order returned by numpy's
    \<^verbatim>\<open>argsort\<close> are parameters of the model.
\<close>

subsection \<open>Dates and month keys\<close>

type_synonym date = "nat \<times> nat \<times> nat"

fun is_leap :: "nat \<Rightarrow> bool" where
  "is_leap y = (y mod 4 = 0 \<and> (y mod 100 \<noteq> 0 \<or> y mod 400 = 0))"

fun days_in_month :: "nat \<Rightarrow> nat \<Rightarrow> nat" where
  "days_in_month y m =
     (if m = 2 then (if is_leap y then 29 else 28)
      else if m = 4 \<or> m = 6 \<or> m = 9 \<or> m = 11 then 30 else 31)"

text \<open>
  The \<^verbatim>\<open>Date\<close> column is parsed to pandas timestamps (nanosecond resolution), whose years
  lie between 1677 and 2262.
\<close>

fun valid_date :: "date \<Rightarrow> bool" where
  "valid_date (y, m, d) =
     (1677 \<le> y \<and> y \<le> 2262 \<and> 1 \<le> m \<and> m \<le> 12 \<and> 1 \<le> d \<and> d \<le> days_in_month y m)"

fun same_month :: "date \<Rightarrow> date \<Rightarrow> bool" where
  "same_month (y1, m1, d1) (y2, m2, d2) = (y1 = y2 \<and> m1 = m2)"

definition digit_char :: "nat \<Rightarrow> char" where
  "digit_char n = ''0123456789'' ! n"

text \<open>Decimal rendering of a number, without padding.\<close>

fun dec :: "nat \<Rightarrow> string" where
  "dec n = (if n < 10 then [digit_char n] else dec (n div 10) @ [digit_char (n mod 10)])"

declare dec.simps [simp del]

definition zfill :: "nat \<Rightarrow> string \<Rightarrow> string" where
  "zfill w s = replicate (w - length s) CHR ''0'' @ s"

text \<open>\<^verbatim>\<open>.dt.to_period("M")\<close>: the monthly period of a date.\<close>

fun to_period_M :: "date \<Rightarrow> nat \<times> nat" where
  "to_period_M (y, m, d) = (y, m)"

text \<open>\<^verbatim>\<open>.astype(str)\<close> of a monthly period: the year, a dash, the month on two digits.\<close>

fun period_str :: "nat \<times> nat \<Rightarrow> string" where
  "period_str (y, m) = dec y @ ''-'' @ zfill 2 (dec m)"

definition month_key :: "date \<Rightarrow> string" where
  "month_key d = period_str (to_period_M d)"

text \<open>The four digits of a year below 10000 and the two digits of a month.\<close>

definition year_digits :: "nat \<Rightarrow> string" where
  "year_digits y = [digit_char (y div 1000), digit_char (y div 100 mod 10),
      digit_char (y div 10 mod 10), digit_char (y mod 10)]"

definition month_digits :: "nat \<Rightarrow> string" where
  "month_digits m = [digit_char (m div 10), digit_char (m mod 10)]"

fun next_day :: "date \<Rightarrow> date" where
  "next_day (y, m, d) =
     (if d < days_in_month y m then (y, m, d + 1)
      else if m < 12 then (y, m + 1, 1) else (y + 1, 1, 1))"

text \<open>\<^verbatim>\<open>pd.date_range(start_date, periods=days)\<close>, daily frequency.\<close>

fun date_range :: "date \<Rightarrow> nat \<Rightarrow> date list" where
  "date_range start 0 = []"
| "date_range start (Suc n) = start # date_range (next_day start) n"

subsection \<open>The uploaded dataset and its validation\<close>

record billing_record =
  Date :: date
  Provider :: "string option"
  CPT :: string
  Units :: int
  Billed_Amount :: rat
  Net_Payment :: rat

record dataset =
  columns :: "string list"
  rows :: "billing_record list"

datatype error =
    NoUpload
  | ValueError_parse_dates string
  | MissingColumns "string set"
  | IndexError
  | KeyError string

definition required_cols :: "string set" where
  "required_cols =
     {''Units'', ''Billed Amount'', ''Net Payment'', ''Date'', ''Provider'', ''CPT''}"

text \<open>
  \<^verbatim>\<open>pd.read_csv(uploaded, parse_dates=["Date"])\<close>: pandas raises
  \<^verbatim>\<open>ValueError: Missing column provided to 'parse_dates': 'Date'\<close> when the header has no
  \<^verbatim>\<open>Date\<close> column.
\<close>

definition read_csv :: "dataset \<Rightarrow> error + dataset" where
  "read_csv ds =
     (if ''Date'' \<in> set (columns ds) then Inr ds else Inl (ValueError_parse_dates ''Date''))"

text \<open>
  Lines 46 to 53: the set difference, the error message built from it, \<^verbatim>\<open>st.stop()\<close>. The
  message joins the names in the iteration order of a Python set, so the error carries the set.
\<close>

definition check_required :: "dataset \<Rightarrow> error + dataset" where
  "check_required ds =
     (let missing = required_cols - set (columns ds)
      in if missing \<noteq> {} then Inl (MissingColumns missing) else Inr ds)"

definition load_dataset :: "dataset option \<Rightarrow> error + dataset" where
  "load_dataset uploaded =
     (case uploaded of
        None \<Rightarrow> Inl NoUpload
      | Some f \<Rightarrow> (case read_csv f of Inl e \<Rightarrow> Inl e | Inr ds \<Rightarrow> check_required ds))"

subsection \<open>Grouping and summing\<close>

text \<open>\<^verbatim>\<open>Series.unique()\<close>: the distinct values in order of first appearance.\<close>

definition unique :: "'a list \<Rightarrow> 'a list" where
  "unique xs = rev (remdups (rev xs))"

text \<open>
  \<^verbatim>\<open>DataFrame.groupby(key)\<close> with the defaults \<^verbatim>\<open>sort=True, dropna=True\<close>: one group per
  distinct key, the groups in ascending key order, rows with a missing key in no group.
\<close>

definition group_keys :: "('r \<Rightarrow> 'k::linorder option) \<Rightarrow> 'r list \<Rightarrow> 'k list" where
  "group_keys key rs = sort (remdups (List.map_filter key rs))"

definition group_of :: "('r \<Rightarrow> 'k option) \<Rightarrow> 'r list \<Rightarrow> 'k \<Rightarrow> 'r list" where
  "group_of key rs k = filter (\<lambda>r. key r = Some k) rs"

record 'k agg_row =
  key_of :: 'k
  sum_Units :: int
  sum_Billed :: rat
  sum_Net :: rat

text \<open>
  \<^verbatim>\<open>.groupby(key).agg({"Units":"sum","Billed Amount":"sum","Net Payment":"sum"}).reset_index()\<close>
\<close>

definition agg_sum ::
  "(billing_record \<Rightarrow> 'k::linorder option) \<Rightarrow> billing_record list \<Rightarrow> 'k agg_row list" where
  "agg_sum key rs =
     map (\<lambda>k. \<lparr>key_of = k,
                sum_Units = sum_list (map Units (group_of key rs k)),
                sum_Billed = sum_list (map Billed_Amount (group_of key rs k)),
                sum_Net = sum_list (map Net_Payment (group_of key rs k))\<rparr>)
         (group_keys key rs)"

subsection \<open>Sorting a frame by one column\<close>

text \<open>
  \<^verbatim>\<open>DataFrame.sort_values(by, ascending)\<close> sorts with \<^verbatim>\<open>kind="quicksort"\<close>, which numpy does
  not promise to be stable. The routine \<^verbatim>\<open>ndarray.argsort\<close> is therefore a parameter
  \<open>asort\<close>: from the column's values to the positions in ascending order of value. pandas
  wraps it in \<^verbatim>\<open>nargsort\<close>, which for a descending sort reverses the column, sorts, and
  reverses the resulting positions.
\<close>

type_synonym argsort = "rat list \<Rightarrow> nat list"

definition nargsort :: "argsort \<Rightarrow> bool \<Rightarrow> rat list \<Rightarrow> nat list" where
  "nargsort asort ascending items =
     (let idx = [0..<length items]
      in if ascending then map (\<lambda>i. idx ! i) (asort items)
         else rev (map (\<lambda>i. rev idx ! i) (asort (rev items))))"

definition sort_values :: "argsort \<Rightarrow> ('a \<Rightarrow> rat) \<Rightarrow> bool \<Rightarrow> 'a list \<Rightarrow> 'a list" where
  "sort_values asort by ascending rs =
     map (\<lambda>i. rs ! i) (nargsort asort ascending (map by rs))"

text \<open>
  On arrays of at most sixteen elements numpy's scalar quicksort is an insertion sort that moves
  an element only past strictly larger ones: a stable argsort. It is the instance used to
  evaluate the model on small tables.
\<close>

definition insertion_argsort :: argsort where
  "insertion_argsort items = map snd (sort_key fst (zip items [0..<length items]))"

subsection \<open>Section 1: executive summary\<close>

text \<open>Line 58: the \<^verbatim>\<open>Month\<close> column.\<close>

definition Month :: "billing_record \<Rightarrow> string" where
  "Month r = month_key (Date r)"

definition all_months :: "billing_record list \<Rightarrow> string list" where
  "all_months rs = sort (unique (map Month rs))"

type_synonym totals = "int \<times> rat \<times> rat"

text \<open>The three sums over the rows of one month (lines 62 to 65, and 69 to 70).\<close>

definition month_totals :: "billing_record list \<Rightarrow> string \<Rightarrow> totals" where
  "month_totals rs m =
     (let md = filter (\<lambda>r. Month r = m) rs
      in (sum_list (map Units md), sum_list (map Billed_Amount md), sum_list (map Net_Payment md)))"

definition prev_m :: "billing_record list \<Rightarrow> string \<Rightarrow> string list" where
  "prev_m rs selected_month = filter (\<lambda>m. m < selected_month) (all_months rs)"

text \<open>Lines 67 to 72: \<open>(pu, pb, pp)\<close>.\<close>

definition baseline :: "billing_record list \<Rightarrow> string \<Rightarrow> totals" where
  "baseline rs selected_month =
     (if prev_m rs selected_month \<noteq> []
      then month_totals rs (last (prev_m rs selected_month))
      else (0, 0, 0))"

text \<open>Lines 75 to 77: the deltas shown beside the three metrics.\<close>

definition deltas :: "billing_record list \<Rightarrow> string \<Rightarrow> totals" where
  "deltas rs selected_month =
     (case (month_totals rs selected_month, baseline rs selected_month) of
        ((tm_units, tm_billed, tm_paid), (pu, pb, pp)) \<Rightarrow>
          (tm_units - pu, tm_billed - pb, tm_paid - pp))"

subsection \<open>Section 2: provider productivity\<close>

text \<open>\<^verbatim>\<open>clinic_df["Provider"].dropna().unique().tolist()\<close>\<close>

definition providers :: "billing_record list \<Rightarrow> string list" where
  "providers rs = unique (List.map_filter Provider rs)"

text \<open>\<^verbatim>\<open>clinic_df["Provider"].isin(sel)\<close> on one row; a missing provider is in no selection.\<close>

definition isin :: "string list \<Rightarrow> billing_record \<Rightarrow> bool" where
  "isin sel r = (case Provider r of None \<Rightarrow> False | Some p \<Rightarrow> p \<in> set sel)"

text \<open>Lines 89 to 93, given the two ends of the date range.\<close>

definition fil :: "billing_record list \<Rightarrow> string list \<Rightarrow> date \<Rightarrow> date \<Rightarrow> billing_record list" where
  "fil rs sel_prov d0 d1 = filter (\<lambda>r. isin sel_prov r \<and> d0 \<le> Date r \<and> Date r \<le> d1) rs"

datatype metric = By_Units | By_Billed_Amount | By_Net_Payment

fun metric_value :: "metric \<Rightarrow> 'k agg_row \<Rightarrow> rat" where
  "metric_value By_Units a = of_int (sum_Units a)"
| "metric_value By_Billed_Amount a = sum_Billed a"
| "metric_value By_Net_Payment a = sum_Net a"

definition prod_sum :: "billing_record list \<Rightarrow> string agg_row list" where
  "prod_sum filtered = agg_sum Provider filtered"

definition prod_sorted ::
  "argsort \<Rightarrow> metric \<Rightarrow> bool \<Rightarrow> billing_record list \<Rightarrow> string agg_row list" where
  "prod_sorted asort sort_metric asc filtered =
     sort_values asort (metric_value sort_metric) asc (prod_sum filtered)"

subsection \<open>Section 3: CPT code analysis\<close>

text \<open>Line 42 has made every CPT cell a string, so no row has a missing CPT key.\<close>

definition cpt_grouped :: "billing_record list \<Rightarrow> string agg_row list" where
  "cpt_grouped rs = agg_sum (\<lambda>r. Some (CPT r)) rs"

text \<open>Lines 110 to 114.\<close>

definition cpt_sum :: "argsort \<Rightarrow> billing_record list \<Rightarrow> string agg_row list" where
  "cpt_sum asort rs = take 10 (sort_values asort (metric_value By_Units) False (cpt_grouped rs))"

subsection \<open>Sections 4 and 5: monthly revenue\<close>

text \<open>
  The frame \<^verbatim>\<open>dfm\<close> that both \<^verbatim>\<open>plot_monthly_trend\<close> and \<^verbatim>\<open>plot_billed_vs_paid\<close> compute and
  plot: per monthly period, in period order, the month string and the two sums.
\<close>

definition dfm :: "billing_record list \<Rightarrow> (string \<times> rat \<times> rat) list" where
  "dfm df =
     map (\<lambda>p. (period_str p,
                sum_list (map Billed_Amount (group_of (\<lambda>r. Some (to_period_M (Date r))) df p)),
                sum_list (map Net_Payment (group_of (\<lambda>r. Some (to_period_M (Date r))) df p))))
         (group_keys (\<lambda>r. Some (to_period_M (Date r))) df)"

definition plot_monthly_trend :: "billing_record list \<Rightarrow> (string \<times> rat \<times> rat) list" where
  "plot_monthly_trend df = dfm df"

definition plot_billed_vs_paid :: "billing_record list \<Rightarrow> (string \<times> rat \<times> rat) list" where
  "plot_billed_vs_paid df = dfm df"

subsection \<open>Section 6: provider comparison\<close>

text \<open>
  Lines 178 to 198. \<open>Some cs\<close> is the comparison table (and the chart drawn from it);
  \<open>None\<close> is the branch that only shows the prompt to select exactly two providers.
\<close>

definition provider_comparison ::
  "billing_record list \<Rightarrow> string list \<Rightarrow> string agg_row list option" where
  "provider_comparison rs sel_two =
     (if length sel_two = 2 then Some (agg_sum Provider (filter (isin sel_two) rs)) else None)"

text \<open>The totals of one provider over the whole dataset.\<close>

definition provider_totals :: "billing_record list \<Rightarrow> string \<Rightarrow> string agg_row" where
  "provider_totals rs p =
     \<lparr>key_of = p,
      sum_Units = sum_list (map Units (filter (\<lambda>r. Provider r = Some p) rs)),
      sum_Billed = sum_list (map Billed_Amount (filter (\<lambda>r. Provider r = Some p) rs)),
      sum_Net = sum_list (map Net_Payment (filter (\<lambda>r. Provider r = Some p) rs))\<rparr>"

subsection \<open>The script, sections 1 to 6\<close>

record params =
  selected_month :: string
  sel_prov :: "string list"
  sel_range :: "date list"
  sort_metric :: metric
  ascending :: bool
  sel_two :: "string list"

record outputs =
  summary_out :: "totals \<times> totals"
  prod_sorted_out :: "string agg_row list"
  cpt_out :: "string agg_row list"
  trend_out :: "(string \<times> rat \<times> rat) list"
  billed_vs_paid_out :: "(string \<times> rat \<times> rat) list"
  comparison_out :: "string agg_row list option"

text \<open>
  \<^verbatim>\<open>st.date_input\<close> hands back the dates picked so far; the script reads \<^verbatim>\<open>sel_range[0]\<close> and
  \<^verbatim>\<open>sel_range[1]\<close>, and Python raises \<^verbatim>\<open>IndexError\<close> when one is not there. The script then
  stops before the later sections are drawn.
\<close>

definition dashboard :: "argsort \<Rightarrow> dataset option \<Rightarrow> params \<Rightarrow> error + outputs" where
  "dashboard asort uploaded p =
     (case load_dataset uploaded of
        Inl e \<Rightarrow> Inl e
      | Inr ds \<Rightarrow>
          (let clinic_df = rows ds;
               summary = (month_totals clinic_df (selected_month p),
                          deltas clinic_df (selected_month p))
           in if length (sel_range p) < 2 then Inl IndexError
              else
                Inr \<lparr>summary_out = summary,
                     prod_sorted_out =
                       prod_sorted asort (sort_metric p) (ascending p)
                         (fil clinic_df (sel_prov p) (sel_range p ! 0) (sel_range p ! 1)),
                     cpt_out = cpt_sum asort clinic_df,
                     trend_out = plot_monthly_trend clinic_df,
                     billed_vs_paid_out = plot_billed_vs_paid clinic_df,
                     comparison_out = provider_comparison clinic_df (sel_two p)\<rparr>))"

text \<open>The four views that take the whole frame \<^verbatim>\<open>clinic_df\<close>.\<close>

definition unfiltered_views ::
  "outputs \<Rightarrow> string agg_row list \<times> (string \<times> rat \<times> rat) list \<times> (string \<times> rat \<times> rat) list
     \<times> string agg_row list option" where
  "unfiltered_views out = (cpt_out out, trend_out out, billed_vs_paid_out out, comparison_out out)"

subsection \<open>Section 7: the synthetic KPI generator\<close>

text \<open>
  One iteration of the loop body of \<^verbatim>\<open>generate_fake_kpis\<close> makes seven calls to \<^verbatim>\<open>np.random\<close>.
  Their results are the fields of a \<open>draws\<close> record, in the order of the calls.
\<close>

record draws =
  poisson_12 :: int
  binomial_no_shows :: int
  binomial_tms :: int
  normal_200_50 :: rat
  uniform_collect :: rat
  binomial_denials :: int
  dirichlet_b :: "rat \<times> rat \<times> rat \<times> rat"

text \<open>
  What the distributions can return: a Poisson count is not negative, \<^verbatim>\<open>binomial(n, p)\<close> lies
  between 0 and \<open>n\<close>, \<^verbatim>\<open>uniform(0.70, 0.95)\<close> lies between its bounds, and a Dirichlet sample
  has non-negative components that add up to one.
\<close>

definition in_support :: "draws \<Rightarrow> bool" where
  "in_support dr =
     (case dirichlet_b dr of (b0, b1, b2, b3) \<Rightarrow>
        0 \<le> poisson_12 dr
        \<and> 0 \<le> binomial_no_shows dr \<and> binomial_no_shows dr \<le> poisson_12 dr
        \<and> 0 \<le> binomial_tms dr \<and> binomial_tms dr \<le> poisson_12 dr - binomial_no_shows dr
        \<and> 7 / 10 \<le> uniform_collect dr \<and> uniform_collect dr \<le> 95 / 100
        \<and> 0 \<le> binomial_denials dr \<and> binomial_denials dr \<le> poisson_12 dr - binomial_no_shows dr
        \<and> 0 \<le> b0 \<and> 0 \<le> b1 \<and> 0 \<le> b2 \<and> 0 \<le> b3 \<and> b0 + b1 + b2 + b3 = 1)"

text \<open>\<^verbatim>\<open>np.rint\<close>: to the nearest integer, a tie to the even neighbour.\<close>

definition rint :: "rat \<Rightarrow> int" where
  "rint x =
     (let f = \<lfloor>x\<rfloor>; d = x - of_int f
      in if d < 1 / 2 then f else if 1 / 2 < d then f + 1 else if even f then f else f + 1)"

text \<open>\<^verbatim>\<open>np.round(x, 2)\<close>: scale by 100, \<^verbatim>\<open>rint\<close>, scale back.\<close>

definition np_round2 :: "rat \<Rightarrow> rat" where
  "np_round2 x = of_int (rint (x * 100)) / 100"

record kpi_record =
  kpi_Date :: date
  kpi_Provider :: string
  Visits :: int
  NoShows :: int
  TMS :: int
  Billed :: rat
  NetPayment :: rat
  Denials :: int
  AR_0_30 :: rat
  AR_31_60 :: rat
  AR_61_90 :: rat
  AR_90_plus :: rat
  AvgRevPerVisit :: rat

text \<open>The local variable \<^verbatim>\<open>completed\<close> of the loop body (line 210).\<close>

definition completed :: "draws \<Rightarrow> int" where
  "completed dr = poisson_12 dr - binomial_no_shows dr"

text \<open>Lines 208 to 225: the record appended for one date and one provider.\<close>

definition kpi_row :: "date \<Rightarrow> string \<Rightarrow> draws \<Rightarrow> kpi_record" where
  "kpi_row date prov dr =
     (let visits = poisson_12 dr;
          no_shows = binomial_no_shows dr;
          n_completed = visits - no_shows;
          tms = binomial_tms dr;
          billed = np_round2 (of_int n_completed * normal_200_50 dr);
          collect = uniform_collect dr;
          net_paid = np_round2 (billed * collect);
          denials = binomial_denials dr;
          ar_tot = billed - net_paid
      in case dirichlet_b dr of (b0, b1, b2, b3) \<Rightarrow>
           \<lparr>kpi_Date = date, kpi_Provider = prov, Visits = visits, NoShows = no_shows, TMS = tms,
            Billed = billed, NetPayment = net_paid, Denials = denials,
            AR_0_30 = np_round2 (ar_tot * b0), AR_31_60 = np_round2 (ar_tot * b1),
            AR_61_90 = np_round2 (ar_tot * b2), AR_90_plus = np_round2 (ar_tot * b3),
            AvgRevPerVisit = (if n_completed > 0 then net_paid / of_int n_completed else 0)\<rparr>)"

text \<open>
  Lines 202 to 226. \<open>rng i\<close> holds the draws of the \<open>i\<close>-th iteration of the nested loop;
  \<open>ps\<close> is the provider list of line 204.
\<close>

definition generate_fake_kpis ::
  "(nat \<Rightarrow> draws) \<Rightarrow> string list \<Rightarrow> date \<Rightarrow> nat \<Rightarrow> kpi_record list" where
  "generate_fake_kpis rng ps start_date days =
     map (\<lambda>(i, (date, prov)). kpi_row date prov (rng i))
       (enumerate 0 (concat (map (\<lambda>date. map (\<lambda>prov. (date, prov)) ps)
                                 (date_range start_date days))))"

record month_kpi =
  mp_Month :: string
  mp_Visits :: int
  mp_NoShows :: int
  mp_TMS :: int
  mp_Denials :: int
  mp_Billed :: rat
  mp_NetPayment :: rat

text \<open>Lines 232 to 234: the monthly sums of the synthetic frame.\<close>

definition kpi_Month :: "kpi_record \<Rightarrow> string option" where
  "kpi_Month r = Some (month_key (kpi_Date r))"

definition mp :: "kpi_record list \<Rightarrow> month_kpi list" where
  "mp kpi =
     map (\<lambda>m. \<lparr>mp_Month = m,
                mp_Visits = sum_list (map Visits (group_of kpi_Month kpi m)),
                mp_NoShows = sum_list (map NoShows (group_of kpi_Month kpi m)),
                mp_TMS = sum_list (map TMS (group_of kpi_Month kpi m)),
                mp_Denials = sum_list (map Denials (group_of kpi_Month kpi m)),
                mp_Billed = sum_list (map Billed (group_of kpi_Month kpi m)),
                mp_NetPayment = sum_list (map NetPayment (group_of kpi_Month kpi m))\<rparr>)
         (group_keys kpi_Month kpi)"

subsection \<open>Section 7: the derived rates\<close>

text \<open>
  The counts are 64-bit integer columns and \<^verbatim>\<open>/\<close> is true division into a float column.
  A float is a finite number, an infinity or NaN; dividing by zero raises nothing and gives NaN
  for \<open>0/0\<close> and a signed infinity otherwise. The finite case carries the exact quotient.
\<close>

datatype pyfloat = Finite rat | PosInf | NegInf | NaN

definition truediv :: "int \<Rightarrow> int \<Rightarrow> pyfloat" where
  "truediv a b =
     (if b = 0 then (if a = 0 then NaN else if 0 < a then PosInf else NegInf)
      else Finite (of_int a / of_int b))"

text \<open>Multiplication of a float by the positive constant 100.\<close>

fun times_100 :: "pyfloat \<Rightarrow> pyfloat" where
  "times_100 (Finite q) = Finite (q * 100)"
| "times_100 PosInf = PosInf"
| "times_100 NegInf = NegInf"
| "times_100 NaN = NaN"

text \<open>Lines 235 and 236, and the expression of line 241.\<close>

definition NoShowRate :: "month_kpi \<Rightarrow> pyfloat" where
  "NoShowRate m = truediv (mp_NoShows m) (mp_Visits m)"

definition DenialRate :: "month_kpi \<Rightarrow> pyfloat" where
  "DenialRate m = truediv (mp_Denials m) (mp_Visits m)"

definition TMS_percent :: "month_kpi \<Rightarrow> pyfloat" where
  "TMS_percent m = times_100 (truediv (mp_TMS m) (mp_Visits m))"

text \<open>
  Lines 238 to 243: the four metrics of the latest month. With no provider the generator
  returns a frame without columns and line 232 raises \<^verbatim>\<open>KeyError: 'Date'\<close>.
\<close>

definition latest_metrics :: "kpi_record list \<Rightarrow> error + (int \<times> pyfloat \<times> pyfloat \<times> pyfloat)" where
  "latest_metrics kpi =
     (if kpi = [] then Inl (KeyError ''Date'')
      else (let latest = last (mp kpi)
            in Inr (mp_Visits latest, TMS_percent latest, NoShowRate latest, DenialRate latest)))"

subsection \<open>Tie order in the CPT view\<close>

text \<open>The position at which a CPT code is first met in the input rows.\<close>

fun first_index :: "'a \<Rightarrow> 'a list \<Rightarrow> nat" where
  "first_index x [] = 0"
| "first_index x (y # ys) = (if x = y then 0 else Suc (first_index x ys))"

text \<open>
  A table is in encounter order on ties when, of two neighbouring rows with equal units, the
  upper one has the code that the input meets first.
\<close>

fun ties_in_encounter_order :: "billing_record list \<Rightarrow> string agg_row list \<Rightarrow> bool" where
  "ties_in_encounter_order rs (a # b # rest) =
     ((if sum_Units a = sum_Units b
       then first_index (key_of a) (map CPT rs) < first_index (key_of b) (map CPT rs)
       else True)
      \<and> ties_in_encounter_order rs (b # rest))"
| "ties_in_encounter_order rs _ = True"

subsection \<open>Example data\<close>

text \<open>Two billing rows of one provider and one CPT code, in January and February 2024.\<close>

definition scenario :: "billing_record list" where
  "scenario =
     [\<lparr>Date = (2024, 1, 5), Provider = Some ''A'', CPT = ''90837'', Units = 1,
       Billed_Amount = 100, Net_Payment = 80\<rparr>,
      \<lparr>Date = (2024, 2, 10), Provider = Some ''A'', CPT = ''90837'', Units = 2,
       Billed_Amount = 200, Net_Payment = 150\<rparr>]"

text \<open>
  Three billing rows: provider B met before provider A, both with one unit, and a row whose
  provider cell is empty.
\<close>

definition example_rows :: "billing_record list" where
  "example_rows =
     [\<lparr>Date = (2024, 1, 5), Provider = Some ''B'', CPT = ''90837'', Units = 1,
       Billed_Amount = 100, Net_Payment = 80\<rparr>,
      \<lparr>Date = (2024, 2, 10), Provider = Some ''A'', CPT = ''90834'', Units = 1,
       Billed_Amount = 200, Net_Payment = 150\<rparr>,
      \<lparr>Date = (2024, 2, 11), Provider = None, CPT = ''99213'', Units = 3,
       Billed_Amount = 50, Net_Payment = 40\<rparr>]"

definition example_upload :: "dataset option" where
  "example_upload =
     Some \<lparr>columns = [''Date'', ''Provider'', ''CPT'', ''Units'', ''Billed Amount'', ''Net Payment''],
           rows = example_rows\<rparr>"

definition example_params :: params where
  "example_params =
     \<lparr>selected_month = ''2024-02'', sel_prov = [''B'', ''A''],
      sel_range = [(2024, 1, 5), (2024, 2, 11)], sort_metric = By_Units, ascending = False,
      sel_two = [''B'', ''A'']\<rparr>"

text \<open>
  Three outcomes of the random calls of one loop iteration. In \<open>tie_draws\<close> one completed visit
  is billed 200.50 and 160.00 is collected, and the Dirichlet sample is four quarters, so each
  bucket is the rounding of 10.125. In \<open>negative_draws\<close> the Normal factor is below zero.
\<close>

definition typical_draws :: draws where
  "typical_draws =
     \<lparr>poisson_12 = 12, binomial_no_shows = 1, binomial_tms = 3, normal_200_50 = 200,
      uniform_collect = 4 / 5, binomial_denials = 1, dirichlet_b = (1 / 2, 1 / 4, 1 / 8, 1 / 8)\<rparr>"


definition negative_draws :: draws where
  "negative_draws =
     \<lparr>poisson_12 = 1, binomial_no_shows = 0, binomial_tms = 0, normal_200_50 = - 10,
      uniform_collect = 4 / 5, binomial_denials = 0,
      dirichlet_b = (1 / 4, 1 / 4, 1 / 4, 1 / 4)\<rparr>"

text \<open>An upload whose header has every required column but \<^verbatim>\<open>Date\<close>.\<close>

definition no_date_upload :: "dataset option" where
  "no_date_upload =
     Some \<lparr>columns = [''Units'', ''Billed Amount'', ''Net Payment'', ''Provider'', ''CPT''],
           rows = []\<rparr>"

text \<open>The outcome in which the Poisson call returns no visit.\<close>

definition zero_draws :: draws where
  "zero_draws =
     \<lparr>poisson_12 = 0, binomial_no_shows = 0, binomial_tms = 0, normal_200_50 = 200,
      uniform_collect = 4 / 5, binomial_denials = 0, dirichlet_b = (1 / 2, 1 / 4, 1 / 8, 1 / 8)\<rparr>"

section \<open>Properties\<close>

subsection \<open>Month keys sort chronologically\<close>

lemma digit_char_less: "i < 10 \<Longrightarrow> j < 10 \<Longrightarrow> digit_char i < digit_char j \<longleftrightarrow> i < j"
proof -
  assume "i < 10" "j < 10"
  then have "i \<in> {0,1,2,3,4,5,6,7,8,9}" "j \<in> {0,1,2,3,4,5,6,7,8,9}" by auto
  then show ?thesis
    by (auto simp: digit_char_def)
qed

lemma digit_char_eq: "i < 10 \<Longrightarrow> j < 10 \<Longrightarrow> digit_char i = digit_char j \<longleftrightarrow> i = j"
  by (metis digit_char_less linorder_neqE_nat less_irrefl)

lemma dec_small: "n < 10 \<Longrightarrow> dec n = [digit_char n]"
  by (simp add: dec.simps)

lemma dec_big: "10 \<le> n \<Longrightarrow> dec n = dec (n div 10) @ [digit_char (n mod 10)]"
  using dec.simps [of n] by simp

lemma dec_four_digits:
  assumes "1000 \<le> y" and "y < 10000"
  shows "dec y = year_digits y"
proof -
  have "dec y = dec (y div 10) @ [digit_char (y mod 10)]"
    using assms by (simp add: dec_big)
  moreover have "dec (y div 10) = dec (y div 100) @ [digit_char (y div 10 mod 10)]"
    using assms dec_big [of "y div 10"] by (simp add: div_mult2_eq[symmetric])
  moreover have "dec (y div 100) = dec (y div 1000) @ [digit_char (y div 100 mod 10)]"
    using assms dec_big [of "y div 100"] by (simp add: div_mult2_eq[symmetric])
  moreover have "dec (y div 1000) = [digit_char (y div 1000)]"
    using assms by (simp add: dec_small)
  ultimately show ?thesis by (simp add: year_digits_def)
qed

lemma zfill_month:
  assumes "1 \<le> m" and "m \<le> 12"
  shows "zfill 2 (dec m) = month_digits m"
proof (cases "m < 10")
  case True
  then show ?thesis by (simp add: dec_small zfill_def digit_char_def month_digits_def)
next
  case False
  with assms have "dec m = [digit_char (m div 10), digit_char (m mod 10)]"
    using dec_big [of m] dec_small [of "m div 10"] by simp
  then show ?thesis by (simp add: zfill_def month_digits_def)
qed

lemma month_key_digits:
  assumes "valid_date (y, m, d)"
  shows "month_key (y, m, d) = year_digits y @ CHR ''-'' # month_digits m"
  using assms by (simp add: month_key_def dec_four_digits zfill_month)

lemma lex10:
  fixes qa ra qb rb :: nat
  assumes "ra < 10" "rb < 10"
  shows "10 * qa + ra < 10 * qb + rb \<longleftrightarrow> qa < qb \<or> (qa = qb \<and> ra < rb)"
  using assms by linarith

lemma split10_less:
  "(a::nat) < b \<longleftrightarrow> a div 10 < b div 10 \<or> (a div 10 = b div 10 \<and> a mod 10 < b mod 10)"
  using lex10 [of "a mod 10" "b mod 10" "a div 10" "b div 10"] by simp

lemma split10_eq: "(a::nat) = b \<longleftrightarrow> a div 10 = b div 10 \<and> a mod 10 = b mod 10"
  by (metis div_mult_mod_eq)

lemma four_digits_less:
  fixes a b :: nat
  shows "(a div 1000 < b div 1000 \<or> a div 1000 = b div 1000 \<and>
          (a div 100 mod 10 < b div 100 mod 10 \<or> a div 100 mod 10 = b div 100 mod 10 \<and>
           (a div 10 mod 10 < b div 10 mod 10 \<or> a div 10 mod 10 = b div 10 mod 10 \<and>
            a mod 10 < b mod 10))) \<longleftrightarrow> a < b"
proof -
  have d2: "a div 10 div 10 = a div 100" "b div 10 div 10 = b div 100"
    by (simp_all add: div_mult2_eq[symmetric])
  have d3: "a div 100 div 10 = a div 1000" "b div 100 div 10 = b div 1000"
    by (simp_all add: div_mult2_eq[symmetric])
  note l1 = split10_less [of a b]
  note l2 = split10_less [of "a div 10" "b div 10", unfolded d2]
  note l3 = split10_less [of "a div 100" "b div 100", unfolded d3]
  note e2 = split10_eq [of "a div 10" "b div 10", unfolded d2]
  note e3 = split10_eq [of "a div 100" "b div 100", unfolded d3]
  show ?thesis unfolding l1 l2 l3 e2 e3 by blast
qed

lemma four_digits_eq:
  fixes a b :: nat
  shows "(a div 1000 = b div 1000 \<and> a div 100 mod 10 = b div 100 mod 10 \<and>
          a div 10 mod 10 = b div 10 mod 10 \<and> a mod 10 = b mod 10) \<longleftrightarrow> a = b"
proof -
  have d2: "a div 10 div 10 = a div 100" "b div 10 div 10 = b div 100"
    by (simp_all add: div_mult2_eq[symmetric])
  have d3: "a div 100 div 10 = a div 1000" "b div 100 div 10 = b div 1000"
    by (simp_all add: div_mult2_eq[symmetric])
  note e1 = split10_eq [of a b]
  note e2 = split10_eq [of "a div 10" "b div 10", unfolded d2]
  note e3 = split10_eq [of "a div 100" "b div 100", unfolded d3]
  show ?thesis unfolding e1 e2 e3 by blast
qed

lemma year_digits_mono:
  assumes "a < 10000" "b < 10000"
  shows "year_digits a < year_digits b \<longleftrightarrow> a < b"
    and "year_digits a = year_digits b \<longleftrightarrow> a = b"
proof -
  have bnd: "a div 1000 < 10" "b div 1000 < 10" using assms by simp_all
  have m: "\<And>n::nat. n mod 10 < 10" by simp
  show "year_digits a < year_digits b \<longleftrightarrow> a < b"
    unfolding four_digits_less [of a b, symmetric] year_digits_def
    by (simp add: digit_char_less digit_char_eq bnd m)
  show "year_digits a = year_digits b \<longleftrightarrow> a = b"
    unfolding four_digits_eq [of a b, symmetric] year_digits_def
    by (simp add: digit_char_eq bnd m)
qed

lemma month_digits_mono:
  assumes "a < 100" "b < 100"
  shows "month_digits a < month_digits b \<longleftrightarrow> a < b"
    and "month_digits a = month_digits b \<longleftrightarrow> a = b"
proof -
  have bnd: "a div 10 < 10" "b div 10 < 10" using assms by simp_all
  have m: "\<And>n::nat. n mod 10 < 10" by simp
  show "month_digits a < month_digits b \<longleftrightarrow> a < b"
    unfolding split10_less [of a b] month_digits_def
    by (simp add: digit_char_less digit_char_eq bnd m)
  show "month_digits a = month_digits b \<longleftrightarrow> a = b"
    unfolding split10_eq [of a b] month_digits_def
    by (simp add: digit_char_eq bnd m)
qed

lemma same_length_append_less:
  fixes xs ys :: "'a::linorder list"
  assumes "length xs = length ys"
  shows "xs @ us < ys @ vs \<longleftrightarrow> xs < ys \<or> (xs = ys \<and> us < vs)"
  using assms by (induction xs ys rule: list_induct2) auto

lemma month_key_less_iff:
  assumes "valid_date (y1, m1, t1)" and "valid_date (y2, m2, t2)"
  shows "month_key (y1, m1, t1) < month_key (y2, m2, t2) \<longleftrightarrow> y1 < y2 \<or> (y1 = y2 \<and> m1 < m2)"
    and "month_key (y1, m1, t1) = month_key (y2, m2, t2) \<longleftrightarrow> y1 = y2 \<and> m1 = m2"
proof -
  have bnd: "y1 < 10000" "y2 < 10000" "m1 < 100" "m2 < 100"
    using assms by simp_all
  have len: "length (year_digits y1) = length (year_digits y2)"
    by (simp add: year_digits_def)
  show "month_key (y1, m1, t1) < month_key (y2, m2, t2) \<longleftrightarrow> y1 < y2 \<or> (y1 = y2 \<and> m1 < m2)"
    unfolding month_key_digits [OF assms(1)] month_key_digits [OF assms(2)]
      same_length_append_less [OF len]
    by (simp add: year_digits_mono [OF bnd(1,2)] month_digits_mono [OF bnd(3,4)])
  show "month_key (y1, m1, t1) = month_key (y2, m2, t2) \<longleftrightarrow> y1 = y2 \<and> m1 = m2"
    unfolding month_key_digits [OF assms(1)] month_key_digits [OF assms(2)] using len
    by (simp add: year_digits_mono [OF bnd(1,2)] month_digits_mono [OF bnd(3,4)])
qed

text \<open>
  Claim C3. The date-to-month-key function is a function of the date alone, and it is monotonic:
  for timestamps \<open>d1 < d2\<close> the key of \<open>d1\<close> is at most the key of \<open>d2\<close> in string order,
  and the two keys are equal exactly when the dates lie in the same calendar month.
\<close>

theorem month_key_monotonic:
  assumes "valid_date d1" and "valid_date d2" and "d1 < d2"
  shows "month_key d1 \<le> month_key d2 \<and> (month_key d1 = month_key d2 \<longleftrightarrow> same_month d1 d2)"
proof -
  obtain y1 m1 t1 where d1: "d1 = (y1, m1, t1)" by (cases d1) auto
  obtain y2 m2 t2 where d2: "d2 = (y2, m2, t2)" by (cases d2) auto
  have v: "valid_date (y1, m1, t1)" "valid_date (y2, m2, t2)"
    using assms(1,2) by (simp_all only: d1 d2)
  note lt = month_key_less_iff(1) [OF v]
  note eq = month_key_less_iff(2) [OF v]
  have ord: "y1 < y2 \<or> (y1 = y2 \<and> m1 \<le> m2)"
    using assms(3) unfolding d1 d2 by auto
  have "month_key (y1, m1, t1) \<le> month_key (y2, m2, t2)"
    unfolding le_less lt eq using ord by auto
  moreover have "same_month d1 d2 \<longleftrightarrow> y1 = y2 \<and> m1 = m2"
    by (simp add: d1 d2)
  ultimately show ?thesis using eq by (simp add: d1 d2)
qed

theorem month_key_monotonic_witness:
  "valid_date (2024, 1, 5) \<and> valid_date (2024, 2, 10) \<and> (2024, 1, 5) < ((2024, 2, 10) :: date) \<and>
   month_key (2024, 1, 5) \<le> month_key (2024, 2, 10) \<and>
   (month_key (2024, 1, 5) = month_key (2024, 2, 10) \<longleftrightarrow> same_month (2024, 1, 5) (2024, 2, 10))"
proof -
  have h1: "valid_date (2024, 1, 5)" by simp
  have h2: "valid_date (2024, 2, 10)" by simp
  have h3: "(2024, 1, 5) < ((2024, 2, 10) :: date)" by simp
  show ?thesis using h1 h2 h3 month_key_monotonic [OF h1 h2 h3] by simp
qed

subsection \<open>Grouping conserves sums\<close>



lemma set_group_keys: "set (group_keys key rs) = {k. \<exists>r \<in> set rs. key r = Some k}"
  by (force simp: group_keys_def map_filter_def)

lemma distinct_group_keys: "distinct (group_keys key rs)"
  by (simp add: group_keys_def)

lemma sorted_group_keys: "sorted (group_keys key rs)"
  by (simp add: group_keys_def)










subsection \<open>The period-over-period baseline\<close>

lemma set_unique: "set (unique xs) = set xs"
  by (simp add: unique_def)

lemma distinct_unique: "distinct (unique xs)"
  by (simp add: unique_def)

lemma set_all_months: "set (all_months rs) = set (map Month rs)"
  by (simp add: all_months_def set_unique)

lemma sorted_prev_m: "sorted (prev_m rs selected)"
  by (simp add: prev_m_def all_months_def sorted_wrt_filter)

lemma set_prev_m: "set (prev_m rs selected) = {m \<in> set (map Month rs). m < selected}"
  unfolding prev_m_def set_filter set_all_months by blast

lemma last_sorted_Max:
  fixes xs :: "'a::linorder list"
  assumes "sorted xs" and "xs \<noteq> []"
  shows "last xs = Max (set xs)"
proof -
  have "last xs \<in> set xs" using assms(2) by simp
  moreover have "\<And>x. x \<in> set xs \<Longrightarrow> x \<le> last xs"
  proof -
    fix x assume "x \<in> set xs"
    then obtain i where i: "i < length xs" "xs ! i = x" by (auto simp: in_set_conv_nth)
    then have "xs ! i \<le> xs ! (length xs - 1)"
      using assms(1) by (intro sorted_nth_mono) auto
    then show "x \<le> last xs" using i assms(2) by (simp add: last_conv_nth)
  qed
  ultimately show ?thesis by (intro Max_eqI [symmetric]) auto
qed

text \<open>
  Claim C2. The baseline of the executive summary is the totals of the largest month key strictly
  below the selected one among the month keys present in the data; when there is none, the
  baseline is zero and the three deltas are the selected month's own totals.
\<close>

theorem period_over_period_baseline:
  "(if {m \<in> set (map Month rs). m < selected} = {}
    then baseline rs selected = (0, 0, 0) \<and> deltas rs selected = month_totals rs selected
    else baseline rs selected = month_totals rs (Max {m \<in> set (map Month rs). m < selected}))"
proof (cases "prev_m rs selected = []")
  case True
  then have "{m \<in> set (map Month rs). m < selected} = {}"
    using set_prev_m [of rs selected] by simp
  moreover have "baseline rs selected = (0, 0, 0)"
    using True by (simp add: baseline_def)
  moreover from this have "deltas rs selected = month_totals rs selected"
    by (simp add: deltas_def split: prod.splits)
  ultimately show ?thesis by simp
next
  case False
  then have ne: "{m \<in> set (map Month rs). m < selected} \<noteq> {}"
    using set_prev_m [of rs selected] by (metis set_empty)
  have "last (prev_m rs selected) = Max {m \<in> set (map Month rs). m < selected}"
    using last_sorted_Max [OF sorted_prev_m False] by (simp only: set_prev_m)
  then have "baseline rs selected = month_totals rs (Max {m \<in> set (map Month rs). m < selected})"
    using False by (simp add: baseline_def)
  with ne show ?thesis by (simp only: if_False)
qed

lemma scenario_months: "map Month scenario = [''2024-01'', ''2024-02'']"
  by (simp add: scenario_def Month_def month_key_def zfill_def digit_char_def dec.simps)

lemma scenario_all_months: "all_months scenario = [''2024-01'', ''2024-02'']"
  by (simp add: all_months_def unique_def scenario_months)

lemma scenario_totals:
  "month_totals scenario ''2024-02'' = (2, 200, 150)"
  "month_totals scenario ''2024-01'' = (1, 100, 80)"
  by (simp_all add: month_totals_def Month_def scenario_def month_key_def zfill_def
      digit_char_def dec.simps)

lemma scenario_prev_m:
  "prev_m scenario ''2024-02'' = [''2024-01'']"
  "prev_m scenario ''2024-01'' = []"
  by (simp_all add: prev_m_def scenario_all_months)

lemma scenario_deltas:
  "deltas scenario ''2024-02'' = (1, 100, 70)"
  "deltas scenario ''2024-01'' = (1, 100, 80)"
  by (simp_all add: deltas_def baseline_def scenario_prev_m scenario_totals)

theorem period_over_period_baseline_witness:
  "baseline scenario ''2024-02'' = month_totals scenario ''2024-01''
   \<and> baseline scenario ''2024-01'' = (0, 0, 0)
   \<and> deltas scenario ''2024-01'' = month_totals scenario ''2024-01''"
proof -
  have e1: "{m \<in> set (map Month scenario). m < ''2024-02''} = {''2024-01''}"
    by (auto simp: scenario_months)
  have e2: "{m \<in> set (map Month scenario). m < ''2024-01''} = {}"
    by (auto simp: scenario_months)
  show ?thesis
    using period_over_period_baseline [of scenario "''2024-02''"]
      period_over_period_baseline [of scenario "''2024-01''"]
    unfolding e1 e2 by simp
qed

subsection \<open>The provider comparison\<close>

lemma set_providers: "set (providers rs) = {p. \<exists>r \<in> set rs. Provider r = Some p}"
  by (force simp: providers_def set_unique map_filter_def)

lemma selected_group_keys:
  assumes "distinct sel" and "set sel \<subseteq> set (providers rs)"
  shows "group_keys Provider (filter (isin sel) rs) = sort sel"
proof (rule sorted_distinct_set_unique)
  have isin_iff: "\<And>r p. Provider r = Some p \<Longrightarrow> isin sel r \<longleftrightarrow> p \<in> set sel"
    by (simp add: isin_def)
  show "set (group_keys Provider (filter (isin sel) rs)) = set (sort sel)"
  proof (intro set_eqI iffI)
    fix p assume "p \<in> set (group_keys Provider (filter (isin sel) rs))"
    then show "p \<in> set (sort sel)"
      unfolding set_group_keys using isin_iff by auto
  next
    fix p assume "p \<in> set (sort sel)"
    then have p: "p \<in> set sel" by simp
    with assms(2) obtain r where "r \<in> set rs" "Provider r = Some p"
      unfolding set_providers by blast
    with p show "p \<in> set (group_keys Provider (filter (isin sel) rs))"
      unfolding set_group_keys using isin_iff by auto
  qed
qed (simp_all add: sorted_group_keys distinct_group_keys assms(1))

lemma selected_group_of:
  assumes "p \<in> set sel"
  shows "group_of Provider (filter (isin sel) rs) p = filter (\<lambda>r. Provider r = Some p) rs"
  unfolding group_of_def filter_filter
  by (rule filter_cong) (auto simp: isin_def assms)

lemma agg_sum_selected:
  assumes "distinct sel" and "set sel \<subseteq> set (providers rs)"
  shows "agg_sum Provider (filter (isin sel) rs) = map (provider_totals rs) (sort sel)"
  unfolding agg_sum_def selected_group_keys [OF assms]
  by (rule map_cong) (simp_all add: provider_totals_def selected_group_of)

text \<open>
  Claim C9. The provider comparison shows a table only when exactly two providers are selected.
  The multiselect hands back distinct providers of the dataset; for two of them the table has two
  rows, one per selected provider in ascending name order, holding that provider's totals over
  the whole dataset. For any other number selected nothing is computed and the script shows its
  prompt, which is not an error.
\<close>

theorem provider_comparison_exactly_two:
  assumes "distinct sel" and "set sel \<subseteq> set (providers rs)"
  shows "if length sel = 2
         then provider_comparison rs sel = Some (map (provider_totals rs) (sort sel))
              \<and> length (map (provider_totals rs) (sort sel)) = 2
         else provider_comparison rs sel = None"
  using agg_sum_selected [OF assms] by (simp add: provider_comparison_def)


lemma example_providers: "providers example_rows = [''B'', ''A'']"
  by (simp add: providers_def unique_def map_filter_def example_rows_def)

theorem provider_comparison_exactly_two_witness:
  "distinct [''B'', ''A''] \<and> set [''B'', ''A''] \<subseteq> set (providers example_rows)
   \<and> provider_comparison example_rows [''B'', ''A''] =
       Some [\<lparr>key_of = ''A'', sum_Units = 1, sum_Billed = 200, sum_Net = 150\<rparr>,
             \<lparr>key_of = ''B'', sum_Units = 1, sum_Billed = 100, sum_Net = 80\<rparr>]
   \<and> provider_comparison example_rows [''A''] = None
   \<and> provider_comparison example_rows [] = None"
proof -
  have h1: "distinct [''B'', ''A'']" "distinct [''A'']" "distinct ([] :: string list)" by simp_all
  have h2: "set [''B'', ''A''] \<subseteq> set (providers example_rows)"
    "set [''A''] \<subseteq> set (providers example_rows)"
    "set [] \<subseteq> set (providers example_rows)"
    by (simp_all add: example_providers)
  have t: "provider_totals example_rows ''A'' =
         \<lparr>key_of = ''A'', sum_Units = 1, sum_Billed = 200, sum_Net = 150\<rparr>"
    "provider_totals example_rows ''B'' =
         \<lparr>key_of = ''B'', sum_Units = 1, sum_Billed = 100, sum_Net = 80\<rparr>"
    by (simp_all add: provider_totals_def example_rows_def)
  show ?thesis
    using provider_comparison_exactly_two [OF h1(1) h2(1)]
      provider_comparison_exactly_two [OF h1(2) h2(2)]
      provider_comparison_exactly_two [OF h1(3) h2(3)]
    by (simp add: t example_providers)
qed

subsection \<open>What the section 2 filter reaches\<close>

lemma dashboard_unfiltered_views:
  assumes "2 \<le> length (sel_range p)"
  shows "map_sum id unfiltered_views (dashboard asort uploaded p) =
     (case load_dataset uploaded of
        Inl e \<Rightarrow> Inl e
      | Inr ds \<Rightarrow> Inr (cpt_sum asort (rows ds), plot_monthly_trend (rows ds),
                        plot_billed_vs_paid (rows ds), provider_comparison (rows ds) (sel_two p)))"
  using assms by (simp add: dashboard_def unfiltered_views_def Let_def split: sum.splits)

text \<open>
  Claim C10. The provider selection and the date range of section 2 reach only the provider
  productivity table. The top-ten CPT table, the monthly revenue trend, the billed-versus-paid
  series and the two-provider comparison are computed from the whole frame: for any two complete
  date ranges and any two provider selections, all else equal, these four outputs are the same.
\<close>

theorem filter_leaves_other_views_unchanged:
  assumes "length r1 = 2" and "length r2 = 2"
  shows "map_sum id unfiltered_views
           (dashboard asort uploaded (p\<lparr>sel_prov := s1, sel_range := r1\<rparr>))
       = map_sum id unfiltered_views
           (dashboard asort uploaded (p\<lparr>sel_prov := s2, sel_range := r2\<rparr>))"
  using assms by (simp add: dashboard_unfiltered_views split: sum.splits)


theorem filter_leaves_other_views_unchanged_witness:
  "length [(2024, 1, 5), (2024, 2, 11) :: date] = 2 \<and> length [(2024, 2, 1), (2024, 2, 29) :: date] = 2
   \<and> map_sum id unfiltered_views (dashboard insertion_argsort example_upload
         (example_params\<lparr>sel_prov := [''B'', ''A''], sel_range := [(2024, 1, 5), (2024, 2, 11)]\<rparr>))
     = map_sum id unfiltered_views (dashboard insertion_argsort example_upload
         (example_params\<lparr>sel_prov := [''A''], sel_range := [(2024, 2, 1), (2024, 2, 29)]\<rparr>))"
proof -
  have h1: "length [(2024, 1, 5), (2024, 2, 11) :: date] = 2" by simp
  have h2: "length [(2024, 2, 1), (2024, 2, 29) :: date] = 2" by simp
  show ?thesis
    using h1 h2 filter_leaves_other_views_unchanged [OF h1 h2] by simp
qed

lemma example_dashboard_loads:
  "load_dataset example_upload = Inr \<lparr>columns = [''Date'', ''Provider'', ''CPT'', ''Units'', ''Billed Amount'', ''Net Payment''], rows = example_rows\<rparr>"
  by (simp add: load_dataset_def example_upload_def read_csv_def check_required_def required_cols_def)

lemma example_prod_sum_differs:
  "prod_sum (fil example_rows [''B'', ''A''] (2024, 1, 5) (2024, 2, 11)) =
     [\<lparr>key_of = ''A'', sum_Units = 1, sum_Billed = 200, sum_Net = 150\<rparr>,
      \<lparr>key_of = ''B'', sum_Units = 1, sum_Billed = 100, sum_Net = 80\<rparr>]"
  "prod_sum (fil example_rows [''A''] (2024, 2, 1) (2024, 2, 29)) =
     [\<lparr>key_of = ''A'', sum_Units = 1, sum_Billed = 200, sum_Net = 150\<rparr>]"
  by (simp_all add: prod_sum_def agg_sum_def group_keys_def group_of_def map_filter_def fil_def
      isin_def example_rows_def)

subsection \<open>The top-ten CPT table\<close>

lemma group_keys_mset:
  assumes "mset rs = mset rs'"
  shows "group_keys key rs = group_keys key rs'"
proof -
  have "set rs = set rs'" using assms by (rule mset_eq_setD)
  then have "set (List.map_filter key rs) = set (List.map_filter key rs')"
    by (simp add: map_filter_def)
  then show ?thesis
    unfolding group_keys_def sorted_list_of_set_sort_remdups [symmetric] by simp
qed

lemma group_sum_mset:
  fixes f :: "'r \<Rightarrow> 'a::comm_monoid_add"
  assumes "mset rs = mset rs'"
  shows "sum_list (map f (group_of key rs k)) = sum_list (map f (group_of key rs' k))"
proof -
  have "mset (map f (group_of key rs k)) = mset (map f (group_of key rs' k))"
    by (simp add: group_of_def assms)
  then show ?thesis by (metis sum_mset_sum_list)
qed

lemma agg_sum_mset:
  assumes "mset rs = mset rs'"
  shows "agg_sum key rs = agg_sum key rs'"
  unfolding agg_sum_def group_keys_mset [OF assms]
  by (simp add: group_sum_mset [OF assms])






text \<open>
  The refutation does not hang on the sort routine. The example rows and their reversal give one
  group table, hence one top-ten table under any routine, while neither descending arrangement
  of that table is in encounter order for both inputs.
\<close>

lemma no_arrangement_fits_both_row_orders:
  "cpt_grouped (rev example_rows) = cpt_grouped example_rows
   \<and> \<not> (ties_in_encounter_order example_rows
            [\<lparr>key_of = ''99213'', sum_Units = 3, sum_Billed = 50, sum_Net = 40\<rparr>,
             \<lparr>key_of = ''90834'', sum_Units = 1, sum_Billed = 200, sum_Net = 150\<rparr>,
             \<lparr>key_of = ''90837'', sum_Units = 1, sum_Billed = 100, sum_Net = 80\<rparr>])
   \<and> \<not> (ties_in_encounter_order (rev example_rows)
            [\<lparr>key_of = ''99213'', sum_Units = 3, sum_Billed = 50, sum_Net = 40\<rparr>,
             \<lparr>key_of = ''90837'', sum_Units = 1, sum_Billed = 100, sum_Net = 80\<rparr>,
             \<lparr>key_of = ''90834'', sum_Units = 1, sum_Billed = 200, sum_Net = 150\<rparr>])"
proof -
  have "mset (rev example_rows) = mset example_rows" by simp
  then have "cpt_grouped (rev example_rows) = cpt_grouped example_rows"
    unfolding cpt_grouped_def by (rule agg_sum_mset)
  then show ?thesis by (simp add: example_rows_def)
qed

subsection \<open>The synthetic record invariant\<close>

lemma rint_floor_bounds: "\<lfloor>x\<rfloor> \<le> rint x" "rint x \<le> \<lfloor>x\<rfloor> + 1"
  by (simp_all add: rint_def Let_def)


lemma rint_nonneg: "0 \<le> x \<Longrightarrow> 0 \<le> rint x"
  using rint_floor_bounds(1) [of x] by (simp add: order_trans [of 0 "\<lfloor>x\<rfloor>"])

lemma rint_le_int:
  assumes "x \<le> of_int n"
  shows "rint x \<le> n"
proof (cases "\<lfloor>x\<rfloor> < n")
  case True
  then show ?thesis using rint_floor_bounds(2) [of x] by linarith
next
  case False
  moreover have "\<lfloor>x\<rfloor> \<le> n" using assms by (simp add: floor_le_iff)
  ultimately have "\<lfloor>x\<rfloor> = n" by simp
  moreover from this have "x = of_int n" using assms by (metis of_int_floor_le order_antisym)
  ultimately show ?thesis by (simp add: rint_def)
qed


lemma np_round2_nonneg: "0 \<le> x \<Longrightarrow> 0 \<le> np_round2 x"
  by (simp add: np_round2_def rint_nonneg)


lemma np_round2_hundredths: "np_round2 (of_int k / 100) = of_int k / 100"
  by (simp add: np_round2_def rint_def)

lemma np_round2_le_hundredths:
  assumes "x \<le> of_int k / 100"
  shows "np_round2 x \<le> of_int k / 100"
proof -
  have "x * 100 \<le> of_int k" using assms by (simp add: field_simps)
  then have "rint (x * 100) \<le> k" by (rule rint_le_int)
  then show ?thesis by (simp add: np_round2_def divide_right_mono)
qed


lemma kpi_row_fields:
  assumes "dirichlet_b dr = (b0, b1, b2, b3)"
  shows "Visits (kpi_row date prov dr) = poisson_12 dr"
    and "NoShows (kpi_row date prov dr) = binomial_no_shows dr"
    and "Billed (kpi_row date prov dr) = np_round2 (of_int (completed dr) * normal_200_50 dr)"
    and "NetPayment (kpi_row date prov dr) =
           np_round2 (Billed (kpi_row date prov dr) * uniform_collect dr)"
    and "AR_0_30 (kpi_row date prov dr) =
           np_round2 ((Billed (kpi_row date prov dr) - NetPayment (kpi_row date prov dr)) * b0)"
    and "AR_31_60 (kpi_row date prov dr) =
           np_round2 ((Billed (kpi_row date prov dr) - NetPayment (kpi_row date prov dr)) * b1)"
    and "AR_61_90 (kpi_row date prov dr) =
           np_round2 ((Billed (kpi_row date prov dr) - NetPayment (kpi_row date prov dr)) * b2)"
    and "AR_90_plus (kpi_row date prov dr) =
           np_round2 ((Billed (kpi_row date prov dr) - NetPayment (kpi_row date prov dr)) * b3)"
  using assms by (simp_all add: kpi_row_def completed_def Let_def)






subsection \<open>The aging buckets\<close>

lemma billed_nonneg:
  assumes "in_support dr" and "0 \<le> normal_200_50 dr"
  shows "0 \<le> Billed (kpi_row date prov dr)"
proof -
  obtain b0 b1 b2 b3 where b: "dirichlet_b dr = (b0, b1, b2, b3)"
    by (cases "dirichlet_b dr") auto
  have "0 \<le> completed dr"
    using assms(1) by (simp add: in_support_def completed_def b)
  then have "0 \<le> of_int (completed dr) * normal_200_50 dr"
    using assms(2) by simp
  then show ?thesis
    unfolding kpi_row_fields(3) [OF b] by (rule np_round2_nonneg)
qed

lemma net_le_billed:
  assumes "in_support dr" and "0 \<le> normal_200_50 dr"
  shows "NetPayment (kpi_row date prov dr) \<le> Billed (kpi_row date prov dr)"
proof -
  obtain b0 b1 b2 b3 where b: "dirichlet_b dr = (b0, b1, b2, b3)"
    by (cases "dirichlet_b dr") auto
  define k where "k = rint (of_int (completed dr) * normal_200_50 dr * 100)"
  have billed: "Billed (kpi_row date prov dr) = of_int k / 100"
    unfolding kpi_row_fields(3) [OF b] by (simp add: np_round2_def k_def)
  have "0 \<le> Billed (kpi_row date prov dr)"
    using assms by (rule billed_nonneg)
  moreover have "uniform_collect dr \<le> 1"
    using assms(1) by (simp add: in_support_def b)
  ultimately have "Billed (kpi_row date prov dr) * uniform_collect dr
                     \<le> Billed (kpi_row date prov dr)"
    by (simp add: mult_left_le)
  then have "np_round2 (Billed (kpi_row date prov dr) * uniform_collect dr) \<le> of_int k / 100"
    unfolding billed by (rule np_round2_le_hundredths)
  then show ?thesis
    unfolding kpi_row_fields(4) [OF b] billed .
qed

text \<open>
  Claim C6, as amended. When the Normal factor drawn for a record is not negative, the
  outstanding amount billed minus net payment is not negative and each of the four aging buckets
  is at least zero.
\<close>

theorem aging_buckets_nonnegative:
  assumes "in_support dr" and "0 \<le> normal_200_50 dr"
  shows "0 \<le> Billed (kpi_row date prov dr) - NetPayment (kpi_row date prov dr)
       \<and> 0 \<le> AR_0_30 (kpi_row date prov dr) \<and> 0 \<le> AR_31_60 (kpi_row date prov dr)
       \<and> 0 \<le> AR_61_90 (kpi_row date prov dr) \<and> 0 \<le> AR_90_plus (kpi_row date prov dr)"
proof -
  obtain b0 b1 b2 b3 where b: "dirichlet_b dr = (b0, b1, b2, b3)"
    by (cases "dirichlet_b dr") auto
  have nn: "0 \<le> b0" "0 \<le> b1" "0 \<le> b2" "0 \<le> b3"
    using assms(1) by (simp_all add: in_support_def b)
  have tot: "0 \<le> Billed (kpi_row date prov dr) - NetPayment (kpi_row date prov dr)"
    using net_le_billed [OF assms] by simp
  have "0 \<le> AR_0_30 (kpi_row date prov dr)"
    unfolding kpi_row_fields(5) [OF b] using tot nn(1) by (intro np_round2_nonneg mult_nonneg_nonneg)
  moreover have "0 \<le> AR_31_60 (kpi_row date prov dr)"
    unfolding kpi_row_fields(6) [OF b] using tot nn(2) by (intro np_round2_nonneg mult_nonneg_nonneg)
  moreover have "0 \<le> AR_61_90 (kpi_row date prov dr)"
    unfolding kpi_row_fields(7) [OF b] using tot nn(3) by (intro np_round2_nonneg mult_nonneg_nonneg)
  moreover have "0 \<le> AR_90_plus (kpi_row date prov dr)"
    unfolding kpi_row_fields(8) [OF b] using tot nn(4) by (intro np_round2_nonneg mult_nonneg_nonneg)
  ultimately show ?thesis using tot by simp
qed

lemma typical_draws_in_support: "in_support typical_draws"
  by (simp add: in_support_def typical_draws_def)

lemma typical_draws_row:
  "kpi_row (2024, 1, 1) ''A'' typical_draws =
     \<lparr>kpi_Date = (2024, 1, 1), kpi_Provider = ''A'', Visits = 12, NoShows = 1,
      TMS = 3, Billed = 2200, NetPayment = 1760, Denials = 1, AR_0_30 = 220,
      AR_31_60 = 110, AR_61_90 = 55, AR_90_plus = 55, AvgRevPerVisit = 160\<rparr>"
  by code_simp

theorem aging_buckets_nonnegative_witness:
  "in_support typical_draws \<and> 0 \<le> normal_200_50 typical_draws
   \<and> 0 \<le> Billed (kpi_row (2024, 1, 1) ''A'' typical_draws)
          - NetPayment (kpi_row (2024, 1, 1) ''A'' typical_draws)
   \<and> 0 \<le> AR_0_30 (kpi_row (2024, 1, 1) ''A'' typical_draws)
   \<and> 0 \<le> AR_31_60 (kpi_row (2024, 1, 1) ''A'' typical_draws)
   \<and> 0 \<le> AR_61_90 (kpi_row (2024, 1, 1) ''A'' typical_draws)
   \<and> 0 \<le> AR_90_plus (kpi_row (2024, 1, 1) ''A'' typical_draws)"
proof -
  have h: "0 \<le> normal_200_50 typical_draws" by (simp add: typical_draws_def)
  show ?thesis
    using typical_draws_in_support h
      aging_buckets_nonnegative [OF typical_draws_in_support h, of "(2024, 1, 1)" "''A''"]
    by simp
qed

lemma negative_draws_in_support: "in_support negative_draws"
  by (simp add: in_support_def negative_draws_def)

lemma negative_draws_row:
  "kpi_row (2024, 1, 1) ''A'' negative_draws =
     \<lparr>kpi_Date = (2024, 1, 1), kpi_Provider = ''A'', Visits = 1, NoShows = 0,
      TMS = 0, Billed = - 10, NetPayment = - 8, Denials = 0,
      AR_0_30 = - (1 / 2), AR_31_60 = - (1 / 2), AR_61_90 = - (1 / 2),
      AR_90_plus = - (1 / 2), AvgRevPerVisit = - 8\<rparr>"
  by code_simp

text \<open>
  Claim C6 as stated fails. With \<open>negative_draws\<close> the Normal factor is \<open>-10\<close>: the record is
  billed \<open>-10.00\<close>, the net payment is \<open>-8.00\<close>, the outstanding amount is \<open>-2.00\<close> and every
  bucket is \<open>-0.50\<close>.
\<close>

theorem aging_bucket_negative:
  "in_support negative_draws
   \<and> Billed (kpi_row (2024, 1, 1) ''A'' negative_draws)
       - NetPayment (kpi_row (2024, 1, 1) ''A'' negative_draws) = - 2
   \<and> AR_0_30 (kpi_row (2024, 1, 1) ''A'' negative_draws) = - (1 / 2)
   \<and> \<not> 0 \<le> AR_0_30 (kpi_row (2024, 1, 1) ''A'' negative_draws)"
  unfolding negative_draws_row by (simp add: negative_draws_in_support)

subsection \<open>Validation of the upload\<close>

lemma load_dataset_with_Date:
  assumes "''Date'' \<in> set (columns ds)"
  shows "load_dataset (Some ds) =
     (if required_cols - set (columns ds) \<noteq> {}
      then Inl (MissingColumns (required_cols - set (columns ds))) else Inr ds)"
  using assms by (simp add: load_dataset_def read_csv_def check_required_def Let_def)

lemma dashboard_halts_on_load_error:
  assumes "load_dataset uploaded = Inl e"
  shows "dashboard asort uploaded p = Inl e"
  using assms by (simp add: dashboard_def)

lemma missing_two_columns_reported:
  "load_dataset (Some \<lparr>columns = [''Date'', ''Provider'', ''Billed Amount'', ''Net Payment''],
                         rows = []\<rparr>) = Inl (MissingColumns {''Units'', ''CPT''})"
  by (subst load_dataset_with_Date) (auto simp: required_cols_def)

text \<open>
  Claim C7. The script at an upload that lacks only the \<^verbatim>\<open>Date\<close> column: the set of missing
  required columns is \<open>{Date}\<close>, but \<^verbatim>\<open>read_csv\<close> has already raised its own error for the
  \<^verbatim>\<open>parse_dates\<close> argument, so the check of lines 46 to 53 never reports that set. Nothing is
  rendered.
\<close>

theorem missing_Date_not_reported:
  "load_dataset no_date_upload = Inl (ValueError_parse_dates ''Date'')
   \<and> map_option (\<lambda>ds. required_cols - set (columns ds)) no_date_upload = Some {''Date''}
   \<and> load_dataset no_date_upload \<noteq> Inl (MissingColumns {''Date''})
   \<and> dashboard insertion_argsort no_date_upload example_params = Inl (ValueError_parse_dates ''Date'')"
proof -
  have l: "load_dataset no_date_upload = Inl (ValueError_parse_dates ''Date'')"
    by (simp add: load_dataset_def read_csv_def no_date_upload_def)
  have "map_option (\<lambda>ds. required_cols - set (columns ds)) no_date_upload = Some {''Date''}"
    by (auto simp: required_cols_def no_date_upload_def)
  then show ?thesis
    using l dashboard_halts_on_load_error [OF l] by simp
qed

subsection \<open>The derived rates of a month without visits\<close>

lemma length_date_range: "length (date_range start n) = n"
  by (induction n arbitrary: start) simp_all

lemma generate_fake_kpis_rows:
  assumes "r \<in> set (generate_fake_kpis rng ps start_date days)"
  shows "\<exists>date prov i. r = kpi_row date prov (rng i)"
proof -
  from assms obtain x where "r = (\<lambda>(i, (date, prov)). kpi_row date prov (rng i)) x"
    unfolding generate_fake_kpis_def by auto
  moreover obtain i d prov where "x = (i, d, prov)" by (rule prod_cases3)
  ultimately have "r = kpi_row d prov (rng i)" by simp
  then show ?thesis by blast
qed

lemma length_date_provider_pairs:
  "length (concat (map (\<lambda>date. map (\<lambda>prov. (date, prov)) ps) ds)) = length ds * length ps"
  by (induction ds) simp_all

lemma length_generate_fake_kpis:
  "length (generate_fake_kpis rng ps start_date days) = days * length ps"
  by (simp add: generate_fake_kpis_def length_date_provider_pairs length_date_range)

lemma zero_draws_row_counts:
  "Visits (kpi_row date prov zero_draws) = 0"
  "NoShows (kpi_row date prov zero_draws) = 0"
  "TMS (kpi_row date prov zero_draws) = 0"
  "Denials (kpi_row date prov zero_draws) = 0"
  by (simp_all add: kpi_row_def zero_draws_def Let_def)

lemma sum_list_zero_column:
  fixes f :: "'r \<Rightarrow> int"
  assumes "\<And>r. r \<in> set rs \<Longrightarrow> f r = 0"
  shows "sum_list (map f (group_of key rs k)) = 0"
  using assms by (induction rs) (auto simp: group_of_def)

lemma mp_not_empty:
  assumes "kpi \<noteq> []"
  shows "mp kpi \<noteq> []"
proof -
  obtain r where "r \<in> set kpi" using assms by (cases kpi) auto
  then have "month_key (kpi_Date r) \<in> set (group_keys kpi_Month kpi)"
    unfolding set_group_keys by (auto simp: kpi_Month_def)
  then show ?thesis by (auto simp: mp_def)
qed

lemma mp_no_visits:
  assumes "\<And>r. r \<in> set kpi \<Longrightarrow> Visits r = 0 \<and> NoShows r = 0 \<and> TMS r = 0 \<and> Denials r = 0"
    and "m \<in> set (mp kpi)"
  shows "mp_Visits m = 0 \<and> mp_NoShows m = 0 \<and> mp_TMS m = 0 \<and> mp_Denials m = 0"
  using assms(2) by (auto simp: mp_def sum_list_zero_column assms(1))

lemma latest_metrics_no_visits:
  assumes "\<And>r. r \<in> set kpi \<Longrightarrow> Visits r = 0 \<and> NoShows r = 0 \<and> TMS r = 0 \<and> Denials r = 0"
    and "kpi \<noteq> []"
  shows "latest_metrics kpi = Inr (0, NaN, NaN, NaN)"
proof -
  have "last (mp kpi) \<in> set (mp kpi)"
    using mp_not_empty [OF assms(2)] by simp
  then have "mp_Visits (last (mp kpi)) = 0 \<and> mp_NoShows (last (mp kpi)) = 0
           \<and> mp_TMS (last (mp kpi)) = 0 \<and> mp_Denials (last (mp kpi)) = 0"
    using mp_no_visits [of kpi "last (mp kpi)"] assms(1) by blast
  then show ?thesis
    using assms(2)
    by (simp add: latest_metrics_def Let_def NoShowRate_def DenialRate_def TMS_percent_def
        truediv_def)
qed

text \<open>
  Claim C1. The script in a year in which no synthetic visit is drawn (one provider, the default
  365 days from 1 January 2024): every monthly total of visits is zero, and for the latest month
  the three rates come out as NaN, the result of the float division \<open>0/0\<close>, and go to the display
  as such. No error or sentinel for a division by zero is produced.
\<close>

theorem rates_of_empty_month_are_NaN:
  "latest_metrics (generate_fake_kpis (\<lambda>i. zero_draws) [''A''] (2024, 1, 1) 365)
     = Inr (0, NaN, NaN, NaN)"
proof (rule latest_metrics_no_visits)
  fix r assume "r \<in> set (generate_fake_kpis (\<lambda>i. zero_draws) [''A''] (2024, 1, 1) 365)"
  then obtain date prov where "r = kpi_row date prov zero_draws"
    using generate_fake_kpis_rows by blast
  then show "Visits r = 0 \<and> NoShows r = 0 \<and> TMS r = 0 \<and> Denials r = 0"
    by (simp add: zero_draws_row_counts)
next
  have "length (generate_fake_kpis (\<lambda>i. zero_draws) [''A''] (2024, 1, 1) 365) = 365"
    by (simp add: length_generate_fake_kpis)
  then show "generate_fake_kpis (\<lambda>i. zero_draws) [''A''] (2024, 1, 1) 365 \<noteq> []"
    by auto
qed

lemma zero_draws_in_support: "in_support zero_draws"
  by (simp add: in_support_def zero_draws_def)

end
